theory Spec2Isabelle
  imports Complex_Main
begin

section \<open>Power state machine of the TK700 control server\<close>

text \<open>
  The server keeps one snapshot of the projector's power state and updates it with two
  pure functions. Timestamps are the integers that \<^verbatim>\<open>Date.now()\<close> returns
  (milliseconds); every function that reads the clock takes the reading as its first
  argument \<open>now\<close>. Elapsed times are seconds and may be infinite, as in the source. The
  source divides in double precision; the model divides exactly, which gives the same
  comparisons with 30 and 90 and the same rounding up for clock readings of the size of
  real dates.
\<close>

datatype PowerState = OFF | WARMING_UP | ON | COOLING_DOWN | UNKNOWN

record PowerStateData =
  powerOn :: "bool option"
  state :: PowerState
  transitionStartTime :: "int option"

text \<open>The numbers the timing code computes with: finite values and the two infinities.\<close>

datatype number = Fin rat | PosInfinity | NegInfinity

fun num_less :: "number \<Rightarrow> number \<Rightarrow> bool" where
  "num_less (Fin a) (Fin b) = (a < b)"
| "num_less (Fin a) PosInfinity = True"
| "num_less (Fin a) NegInfinity = False"
| "num_less PosInfinity b = False"
| "num_less NegInfinity NegInfinity = False"
| "num_less NegInfinity b = True"

text \<open>\<open>a - b\<close> for a finite \<open>a\<close>, the only subtraction the code performs.\<close>

fun num_sub :: "rat \<Rightarrow> number \<Rightarrow> number" where
  "num_sub a (Fin b) = Fin (a - b)"
| "num_sub a PosInfinity = NegInfinity"
| "num_sub a NegInfinity = PosInfinity"

text \<open>\<^verbatim>\<open>Math.ceil\<close>: the infinities are kept.\<close>

fun num_ceil :: "number \<Rightarrow> number" where
  "num_ceil (Fin a) = Fin (of_int \<lceil>a\<rceil>)"
| "num_ceil PosInfinity = PosInfinity"
| "num_ceil NegInfinity = NegInfinity"

text \<open>\<^verbatim>\<open>Math.max\<close> with a finite first argument.\<close>

fun num_max :: "rat \<Rightarrow> number \<Rightarrow> number" where
  "num_max a (Fin b) = Fin (max a b)"
| "num_max a PosInfinity = PosInfinity"
| "num_max a NegInfinity = Fin a"

definition WARMING_UP_TIME_SECONDS :: rat where
  "WARMING_UP_TIME_SECONDS = 30"

definition COOLING_DOWN_TIME_SECONDS :: rat where
  "COOLING_DOWN_TIME_SECONDS = 90"

definition initialState :: PowerStateData where
  "initialState = \<lparr>powerOn = None, state = UNKNOWN, transitionStartTime = None\<rparr>"

text \<open>
  \<^verbatim>\<open>startTime ? (Date.now() - startTime) / 1000 : Infinity\<close>. The test is a truthiness
  test: it fails for \<^verbatim>\<open>null\<close> and also for the number \<open>0\<close>.
\<close>

definition calculateTimeSinceTransition :: "int \<Rightarrow> int option \<Rightarrow> number" where
  "calculateTimeSinceTransition now startTime =
     (case startTime of
        None \<Rightarrow> PosInfinity
      | Some t \<Rightarrow> if t \<noteq> 0 then Fin (of_int (now - t) / 1000) else PosInfinity)"

definition inferPowerState :: "int \<Rightarrow> PowerStateData \<Rightarrow> bool \<Rightarrow> PowerState" where
  "inferPowerState now current on =
     (let timeSinceTransition = calculateTimeSinceTransition now (transitionStartTime current)
      in if state current = WARMING_UP
            \<and> num_less timeSinceTransition (Fin WARMING_UP_TIME_SECONDS)
         then WARMING_UP
         else if state current = COOLING_DOWN
            \<and> num_less timeSinceTransition (Fin COOLING_DOWN_TIME_SECONDS)
         then COOLING_DOWN
         else if on then ON else OFF)"

definition shouldResetTransition :: "PowerState \<Rightarrow> PowerState \<Rightarrow> bool" where
  "shouldResetTransition currentState newState =
     (newState \<noteq> currentState \<and> (newState = ON \<or> newState = OFF))"

definition updateFromProjector :: "int \<Rightarrow> PowerStateData \<Rightarrow> bool option \<Rightarrow> PowerStateData" where
  "updateFromProjector now current reading =
     (case reading of
        None \<Rightarrow> current
      | Some on \<Rightarrow>
          (let newState = inferPowerState now current on
           in \<lparr>powerOn = Some on,
               state = newState,
               transitionStartTime =
                 (if shouldResetTransition (state current) newState then None
                  else transitionStartTime current)\<rparr>))"

definition initiateTransition :: "int \<Rightarrow> PowerStateData \<Rightarrow> bool \<Rightarrow> PowerStateData" where
  "initiateTransition now current targetOn =
     (let canTurnOn = (state current = OFF);
          canTurnOff = (state current = ON)
      in if targetOn \<and> canTurnOn
         then \<lparr>powerOn = Some targetOn, state = WARMING_UP, transitionStartTime = Some now\<rparr>
         else if \<not> targetOn \<and> canTurnOff
         then \<lparr>powerOn = Some targetOn, state = COOLING_DOWN, transitionStartTime = Some now\<rparr>
         else current)"

definition calculateRemainingSeconds :: "int \<Rightarrow> PowerStateData \<Rightarrow> number" where
  "calculateRemainingSeconds now st =
     (if transitionStartTime st = None then Fin 0
      else
        (let timeSinceTransition = calculateTimeSinceTransition now (transitionStartTime st);
             totalTime = (if state st = WARMING_UP then WARMING_UP_TIME_SECONDS
                          else COOLING_DOWN_TIME_SECONDS)
         in num_max 0 (num_ceil (num_sub totalTime timeSinceTransition))))"

text \<open>
  The snapshots the server can hold: the holder starts at \<open>initialState\<close> and is only
  ever replaced by the result of one of the two transition functions, at whatever clock
  reading and with whatever argument.
\<close>

inductive reachable :: "PowerStateData \<Rightarrow> bool" where
  init: "reachable initialState"
| observe: "reachable s \<Longrightarrow> reachable (updateFromProjector now s reading)"
| request: "reachable s \<Longrightarrow> reachable (initiateTransition now s targetOn)"

text \<open>
  The snapshots the holder can hold on a server whose clock does not read \<open>0\<close>, the
  first millisecond of 1970, at the moment a transition is requested. A start time is
  recorded by \<open>initiateTransition\<close> only, as the clock reading of that moment.
\<close>

inductive held :: "PowerStateData \<Rightarrow> bool" where
  held_init: "held initialState"
| held_observe: "held s \<Longrightarrow> held (updateFromProjector now s reading)"
| held_request: "held s \<Longrightarrow> now \<noteq> 0 \<Longrightarrow> held (initiateTransition now s targetOn)"

definition transitioning :: "PowerStateData \<Rightarrow> bool" where
  "transitioning s = (state s = WARMING_UP \<or> state s = COOLING_DOWN)"

definition timer_matches_state :: "PowerStateData \<Rightarrow> bool" where
  "timer_matches_state s = ((transitionStartTime s \<noteq> None) = transitioning s)"

subsection \<open>The transition functions as the specification words them\<close>

text \<open>
  The elapsed time of the specification: the time since the start of the transition,
  infinite only when no start is recorded.
\<close>

definition elapsed_spec :: "int \<Rightarrow> int option \<Rightarrow> number" where
  "elapsed_spec now startTime =
     (case startTime of None \<Rightarrow> PosInfinity | Some t \<Rightarrow> Fin (of_int (now - t) / 1000))"

definition observeReading_spec :: "int \<Rightarrow> PowerStateData \<Rightarrow> bool option \<Rightarrow> PowerStateData" where
  "observeReading_spec now current reading =
     (case reading of
        None \<Rightarrow> current
      | Some on \<Rightarrow>
          (let elapsed = elapsed_spec now (transitionStartTime current);
               resolved =
                 (if state current = WARMING_UP \<and> num_less elapsed (Fin 30) then WARMING_UP
                  else if state current = COOLING_DOWN \<and> num_less elapsed (Fin 90)
                  then COOLING_DOWN
                  else if on then ON else OFF)
           in \<lparr>powerOn = Some on,
               state = resolved,
               transitionStartTime =
                 (if resolved \<noteq> state current \<and> (resolved = ON \<or> resolved = OFF) then None
                  else transitionStartTime current)\<rparr>))"



section \<open>The state holder and the HTTP handlers\<close>

text \<open>
  \<^verbatim>\<open>makePowerStateManager\<close> closes over one mutable snapshot. The server state below is
  that snapshot together with a journal of the effects performed so far, in program order:
  every write of the snapshot and every command handed to the device client.
\<close>

record PowerStateInfo = PowerStateData +
  remainingSeconds :: number

definition enrichWithRemainingSeconds :: "int \<Rightarrow> PowerStateData \<Rightarrow> PowerStateInfo" where
  "enrichWithRemainingSeconds now st =
     PowerStateData.extend st
       (PowerStateInfo.fields (calculateRemainingSeconds now st))"

text \<open>Parsed JSON values; an object lists its members in the order of the text.\<close>

datatype json =
    JNull
  | JBool bool
  | JNum rat
  | JStr string
  | JArr "json list"
  | JObj "(string \<times> json) list"

datatype command =
    GetPowerStatus
  | SetPower bool
  | AdjustBrightness json
  | SetBrightness json

datatype effect = StateWritten PowerStateData | Issued command

record server =
  manager :: PowerStateData
  journal :: "effect list"

definition modifyState ::
  "(PowerStateData \<Rightarrow> PowerStateData) \<Rightarrow> server \<Rightarrow> PowerStateData \<times> server" where
  "modifyState f srv =
     (let st = f (manager srv)
      in (st, srv\<lparr>manager := st, journal := journal srv @ [StateWritten st]\<rparr>))"

definition updateFromProjectorStatus ::
  "int \<Rightarrow> bool option \<Rightarrow> server \<Rightarrow> PowerStateData \<times> server" where
  "updateFromProjectorStatus now reading =
     modifyState (\<lambda>current. updateFromProjector now current reading)"

definition initiateTransitionTo :: "int \<Rightarrow> bool \<Rightarrow> server \<Rightarrow> PowerStateData \<times> server" where
  "initiateTransitionTo now targetOn =
     modifyState (\<lambda>current. initiateTransition now current targetOn)"

definition getStateInfo :: "int \<Rightarrow> server \<Rightarrow> PowerStateInfo" where
  "getStateInfo now srv = enrichWithRemainingSeconds now (manager srv)"

text \<open>Handing a command to the device client; what the device answers is a parameter.\<close>

definition issue :: "command \<Rightarrow> server \<Rightarrow> server" where
  "issue cmd srv = srv\<lparr>journal := journal srv @ [Issued cmd]\<rparr>"

text \<open>
  The wrapped reply \<^verbatim>\<open>{ error, data }\<close>. The conversion of a device result into it
  (\<^verbatim>\<open>AT.toApiResponse\<close>) is outside the sources, so the handlers take the wrapped reply
  of each command as a parameter \<open>client\<close>.
\<close>

record 'a ApiResponse =
  error :: "string option"
  data :: "'a option"

record 'a http_reply =
  status :: nat
  payload :: "'a ApiResponse"

text \<open>A string or \<^verbatim>\<open>null\<close> is truthy when it is a non-empty string.\<close>

definition truthy_error :: "string option \<Rightarrow> bool" where
  "truthy_error e = (case e of None \<Rightarrow> False | Some msg \<Rightarrow> msg \<noteq> [])"

definition handleTask :: "'a ApiResponse \<Rightarrow> 'a http_reply" where
  "handleTask response =
     \<lparr>status = (if truthy_error (error response) then 500 else 200), payload = response\<rparr>"

text \<open>
  \<^verbatim>\<open>POST /api/power\<close>: the transition is applied to the holder, then the command is
  handed to the device client, and its wrapped reply becomes the HTTP reply.
\<close>

definition postPower ::
  "int \<Rightarrow> (command \<Rightarrow> 'a ApiResponse) \<Rightarrow> bool \<Rightarrow> server \<Rightarrow> 'a http_reply \<times> server" where
  "postPower now client on srv =
     (let srv1 = snd (initiateTransitionTo now on srv);
          srv2 = issue (SetPower on) srv1
      in (handleTask (client (SetPower on)), srv2))"

text \<open>
  \<^verbatim>\<open>GET /api/power-state\<close>: one device read, a failed read counting as \<^verbatim>\<open>null\<close>, fed to
  the holder; the reply is the enriched snapshot, whose countdown reads the clock again
  (\<open>now'\<close>).
\<close>

definition reading_of :: "'e + bool option \<Rightarrow> bool option" where
  "reading_of powerStatus = (case powerStatus of Inl _ \<Rightarrow> None | Inr r \<Rightarrow> r)"

definition getPowerStateHandler ::
  "int \<Rightarrow> int \<Rightarrow> 'e + bool option \<Rightarrow> server \<Rightarrow> PowerStateInfo http_reply \<times> server" where
  "getPowerStateHandler now now' powerStatus srv =
     (let srv1 = issue GetPowerStatus srv;
          srv2 = snd (updateFromProjectorStatus now (reading_of powerStatus) srv1)
      in (\<lparr>status = 200, payload = \<lparr>error = None, data = Some (getStateInfo now' srv2)\<rparr>\<rparr>,
          srv2))"

subsection \<open>The brightness handler\<close>

datatype js_error = TypeError

text \<open>
  Reading a member of a parsed JSON value: \<^verbatim>\<open>null\<close> has no members and the read throws;
  an object yields its member, the last one of that name in the text, or \<^verbatim>\<open>undefined\<close>
  (\<open>None\<close>); numbers, booleans, strings and arrays have no member called
  \<^verbatim>\<open>direction\<close> or \<^verbatim>\<open>value\<close>, the only names the handler reads.
\<close>

fun member :: "json \<Rightarrow> string \<Rightarrow> js_error + json option" where
  "member JNull k = Inl TypeError"
| "member (JObj ms) k = Inr (map_of (rev ms) k)"
| "member _ k = Inr None"

fun truthy :: "json \<Rightarrow> bool" where
  "truthy JNull = False"
| "truthy (JBool b) = b"
| "truthy (JNum n) = (n \<noteq> 0)"
| "truthy (JStr s) = (s \<noteq> [])"
| "truthy (JArr _) = True"
| "truthy (JObj _) = True"

definition truthy_member :: "json option \<Rightarrow> bool" where
  "truthy_member m = (case m of None \<Rightarrow> False | Some v \<Rightarrow> truthy v)"

text \<open>
  The result is the command dispatched to the device client, if any, and the HTTP reply;
  or the exception thrown while reading the body.
\<close>

definition postBrightness ::
  "(command \<Rightarrow> 'a ApiResponse) \<Rightarrow> json \<Rightarrow> js_error + (command option \<times> 'a http_reply)" where
  "postBrightness client body =
     (case member body ''direction'' of
        Inl e \<Rightarrow> Inl e
      | Inr direction \<Rightarrow>
          (case (if truthy_member direction then direction else None) of
             Some d \<Rightarrow> Inr (Some (AdjustBrightness d), handleTask (client (AdjustBrightness d)))
           | None \<Rightarrow>
               (case member body ''value'' of
                  Inl e \<Rightarrow> Inl e
                | Inr (Some v) \<Rightarrow>
                    Inr (Some (SetBrightness v), handleTask (client (SetBrightness v)))
                | Inr None \<Rightarrow>
                    Inr (None,
                      \<lparr>status = 400,
                       payload = \<lparr>error = Some ''Invalid request'', data = None\<rparr>\<rparr>))))"

definition has_member :: "json \<Rightarrow> string \<Rightarrow> bool" where
  "has_member body k = (case member body k of Inr (Some _) \<Rightarrow> True | _ \<Rightarrow> False)"

text \<open>What the handler did with a body: the status of its reply, if it replied.\<close>

definition reply_status :: "js_error + (command option \<times> 'a http_reply) \<Rightarrow> nat option" where
  "reply_status r = (case r of Inl _ \<Rightarrow> None | Inr (_, reply) \<Rightarrow> Some (status reply))"

definition truthy_at :: "json \<Rightarrow> string \<Rightarrow> bool" where
  "truthy_at body k = (case member body k of Inl _ \<Rightarrow> False | Inr m \<Rightarrow> truthy_member m)"

text \<open>Two device clients for examples: one whose commands succeed, one whose commands fail.\<close>

definition ok_client :: "command \<Rightarrow> unit ApiResponse" where
  "ok_client cmd = \<lparr>error = None, data = Some ()\<rparr>"

definition failing_client :: "command \<Rightarrow> unit ApiResponse" where
  "failing_client cmd = \<lparr>error = Some ''Connection timeout'', data = None\<rparr>"

section \<open>The pollers of the dashboard\<close>

text \<open>
  The pollers are pipelines of observables over promises. A promise is modelled by the way
  it settles, a task (\<^verbatim>\<open>TaskEither\<close>) by the way its promise settles, and a pipeline
  by a state machine that is driven by the events of the run time: a subscription, a
  timer firing, the settling of a fetch. Each event carries the time at which it happens,
  in milliseconds.
\<close>

definition POLL_INTERVAL :: nat where
  "POLL_INTERVAL = 2000"

datatype 'a settled = Rejected string | Resolved 'a

definition promise_then :: "('a \<Rightarrow> 'b) \<Rightarrow> 'a settled \<Rightarrow> 'b settled" where
  "promise_then f p = (case p of Rejected e \<Rightarrow> Rejected e | Resolved x \<Rightarrow> Resolved (f x))"

text \<open>\<^verbatim>\<open>TE.tryCatch\<close> turns a rejection into a left value, so its promise always resolves.\<close>

definition TE_tryCatch :: "'a settled \<Rightarrow> (string \<Rightarrow> string) \<Rightarrow> (string + 'a) settled" where
  "TE_tryCatch p onRejected =
     (case p of Rejected e \<Rightarrow> Resolved (Inl (onRejected e)) | Resolved x \<Rightarrow> Resolved (Inr x))"

definition TE_of :: "'a \<Rightarrow> (string + 'a) settled" where
  "TE_of x = Resolved (Inr x)"

definition TE_map :: "('a \<Rightarrow> 'b) \<Rightarrow> (string + 'a) settled \<Rightarrow> (string + 'b) settled" where
  "TE_map f = promise_then (map_sum id f)"

definition TE_orElse ::
  "(string \<Rightarrow> (string + 'a) settled) \<Rightarrow> (string + 'a) settled \<Rightarrow> (string + 'a) settled" where
  "TE_orElse onLeft t =
     (case t of
        Rejected e \<Rightarrow> Rejected e
      | Resolved (Inl err) \<Rightarrow> onLeft err
      | Resolved (Inr x) \<Rightarrow> Resolved (Inr x))"

text \<open>\<^verbatim>\<open>E.getOrElse(() => null)\<close> on a value that may itself be \<^verbatim>\<open>null\<close>.\<close>

definition getOrElse_null :: "string + 'a option \<Rightarrow> 'a option" where
  "getOrElse_null either = (case either of Inl _ \<Rightarrow> None | Inr v \<Rightarrow> v)"

text \<open>The argument is the way the promise of \<^verbatim>\<open>getPowerState()\<close> settles.\<close>

definition fetchPowerState :: "'d settled \<Rightarrow> (string + 'd) settled" where
  "fetchPowerState fetched = TE_tryCatch fetched (\<lambda>e. ''Failed to fetch power state: '' @ e)"

text \<open>
  \<^verbatim>\<open>createPollingTask\<close>: the argument is the way the promise of \<^verbatim>\<open>fetchFn()\<close> settles.
  \<open>TE_map Some\<close> is the widening of the result type from \<^verbatim>\<open>T\<close> to \<^verbatim>\<open>T | null\<close>.
\<close>

definition createPollingTask :: "'a settled \<Rightarrow> string \<Rightarrow> (string + 'a option) settled" where
  "createPollingTask fetched errorMsg =
     TE_orElse (\<lambda>_. TE_of None)
       (TE_map Some (TE_tryCatch fetched (\<lambda>e. errorMsg @ '': '' @ e)))"

record PictureSettings =
  brightness :: "int option"
  contrast :: "int option"
  sharpness :: "int option"

text \<open>
  \<^verbatim>\<open>Promise.all\<close> of three promises resolves to the three values when all resolve, and
  rejects as soon as one rejects; the reason kept here is that of the first rejected
  promise in the order of the array.
\<close>

fun Promise_all3 :: "'a settled \<Rightarrow> 'b settled \<Rightarrow> 'c settled \<Rightarrow> ('a \<times> 'b \<times> 'c) settled" where
  "Promise_all3 (Resolved x) (Resolved y) (Resolved z) = Resolved (x, y, z)"
| "Promise_all3 (Rejected e) _ _ = Rejected e"
| "Promise_all3 _ (Rejected e) _ = Rejected e"
| "Promise_all3 _ _ (Rejected e) = Rejected e"

text \<open>
  The argument is the way the promises of \<^verbatim>\<open>getBrightness()\<close>, \<^verbatim>\<open>getContrast()\<close> and
  \<^verbatim>\<open>getSharpness()\<close> settle.
\<close>

definition fetchPictureSettings ::
  "int option settled \<times> int option settled \<times> int option settled
     \<Rightarrow> (string + PictureSettings) settled" where
  "fetchPictureSettings fetched =
     (case fetched of (b, c, s) \<Rightarrow>
        TE_orElse
          (\<lambda>_. TE_of \<lparr>brightness = None, contrast = None, sharpness = None\<rparr>)
          (TE_map
             (\<lambda>(brightness, contrast, sharpness).
                \<lparr>brightness = brightness, contrast = contrast, sharpness = sharpness\<rparr>)
             (TE_tryCatch (Promise_all3 b c s)
                (\<lambda>e. ''Failed to fetch picture settings: '' @ e))))"

fun is_rejected :: "'a settled \<Rightarrow> bool" where
  "is_rejected (Rejected _) = True"
| "is_rejected (Resolved _) = False"

subsection \<open>A timer, one fetch at a time, and a replayed last value\<close>

text \<open>
  The state of \<^verbatim>\<open>interval(POLL_INTERVAL).pipe(startWith(0), switchMap(fetch))\<close> followed by
  \<^verbatim>\<open>shareReplay(1)\<close>:
  \<^item> \<open>timerDue\<close>: when the interval's timer fires next, if a timer is running;
  \<^item> \<open>fetchTimes\<close>: the times at which a fetch was started, in order; the fetch started
    as the \<open>i\<close>-th one has the number \<open>i\<close>, counted from 0;
  \<^item> \<open>pending\<close>: the number of the fetch whose result is still awaited (\<^verbatim>\<open>switchMap\<close>
    listens to the latest one only);
  \<^item> \<open>cached\<close>: the value replayed to a new subscriber, if one was emitted;
  \<^item> \<open>published\<close>: the values emitted to the subscribers, in order;
  \<^item> \<open>errored\<close>: the stream has terminated with an error and emits nothing more.
\<close>

record 'v ticker =
  timerDue :: "nat option"
  fetchTimes :: "nat list"
  pending :: "nat option"
  cached :: "'v option"
  published :: "'v list"
  errored :: bool

definition idle :: "'v ticker" where
  "idle = \<lparr>timerDue = None, fetchTimes = [], pending = None, cached = None, published = [],
           errored = False\<rparr>"

definition start_fetch :: "nat \<Rightarrow> 'v ticker \<Rightarrow> 'v ticker" where
  "start_fetch t s = s\<lparr>fetchTimes := fetchTimes s @ [t], pending := Some (length (fetchTimes s))\<rparr>"

text \<open>Subscribing at time \<open>t\<close>: \<^verbatim>\<open>startWith(0)\<close> ticks at once, the timer is armed.\<close>

definition subscribe_interval :: "nat \<Rightarrow> 'v ticker \<Rightarrow> 'v ticker" where
  "subscribe_interval t s = start_fetch t (s\<lparr>timerDue := Some (t + POLL_INTERVAL)\<rparr>)"

text \<open>The timer fires when it is due, and only then; it is armed again for the next period.\<close>

definition timer_fire :: "nat \<Rightarrow> 'v ticker \<Rightarrow> 'v ticker" where
  "timer_fire t s =
     (if timerDue s = Some t then start_fetch t (s\<lparr>timerDue := Some (t + POLL_INTERVAL)\<rparr>)
      else s)"

definition emit :: "'v \<Rightarrow> 'v ticker \<Rightarrow> 'v ticker" where
  "emit v s = s\<lparr>cached := Some v, published := published s @ [v]\<rparr>"

text \<open>
  Fetch number \<open>i\<close> settles. A fetch that is no longer awaited is ignored; a rejection of
  the awaited one is an error of the stream, which ends it.
\<close>

definition settle :: "nat \<Rightarrow> 'v settled \<Rightarrow> 'v ticker \<Rightarrow> 'v ticker" where
  "settle i outcome s =
     (if pending s = Some i
      then (case outcome of
              Rejected e \<Rightarrow> s\<lparr>errored := True, timerDue := None, pending := None\<rparr>
            | Resolved v \<Rightarrow> emit v (s\<lparr>pending := None\<rparr>))
      else s)"

subsection \<open>The power poller\<close>

datatype 'x power_event = Subscribed | PowerTimer | PowerSettled nat 'x

text \<open>
  \<^verbatim>\<open>power$\<close>. Only the first subscription starts the pipeline (\<^verbatim>\<open>shareReplay\<close> shares
  it). A settled fetch goes through \<open>fetchPowerState\<close> and the \<^verbatim>\<open>map\<close> to the right
  value or \<^verbatim>\<open>null\<close>.
\<close>

definition right_or_null :: "string + 'd \<Rightarrow> 'd option" where
  "right_or_null either = (case either of Inl _ \<Rightarrow> None | Inr d \<Rightarrow> Some d)"

definition power_step :: "nat \<Rightarrow> 'd settled power_event \<Rightarrow> 'd option ticker \<Rightarrow> 'd option ticker" where
  "power_step t ev s =
     (if errored s then s
      else (case ev of
              Subscribed \<Rightarrow> if fetchTimes s = [] then subscribe_interval t s else s
            | PowerTimer \<Rightarrow> timer_fire t s
            | PowerSettled i fetched \<Rightarrow>
                settle i (promise_then right_or_null (fetchPowerState fetched)) s))"

subsection \<open>The derived on/off signal and the conditional pollers\<close>

definition isProjectorOn :: "PowerStateInfo option \<Rightarrow> bool" where
  "isProjectorOn st =
     (case st of None \<Rightarrow> False | Some d \<Rightarrow> powerOn d = Some True \<and> state d = ON)"

text \<open>\<^verbatim>\<open>isProjectorOn$\<close>: what \<^verbatim>\<open>distinctUntilChanged\<close> lets through of the mapped values.\<close>

definition isProjectorOn_signal :: "PowerStateInfo option list \<Rightarrow> bool list" where
  "isProjectorOn_signal emissions = remdups_adj (map isProjectorOn emissions)"

datatype 'x poll_event = CondEmit bool | TimerFire | Settled nat 'x

text \<open>
  \<^verbatim>\<open>createConditionalPoller$\<close>. The task is given as a function of the way its fetch
  settles. An emission of the condition replaces the inner stream: \<^verbatim>\<open>true\<close> subscribes
  to a new interval, \<^verbatim>\<open>false\<close> emits \<^verbatim>\<open>null\<close>; the timer and the awaited fetch of the
  replaced stream are dropped. The events are those of a pipeline that has a subscriber.
\<close>

definition poller_step ::
  "('x \<Rightarrow> (string + 'a option) settled) \<Rightarrow> nat \<Rightarrow> 'x poll_event
     \<Rightarrow> 'a option ticker \<Rightarrow> 'a option ticker" where
  "poller_step task t ev s =
     (if errored s then s
      else (case ev of
              CondEmit isOn \<Rightarrow>
                if isOn then subscribe_interval t s
                else emit None (s\<lparr>timerDue := None, pending := None\<rparr>)
            | TimerFire \<Rightarrow> timer_fire t s
            | Settled i fetched \<Rightarrow> settle i (promise_then getOrElse_null (task fetched)) s))"

fun poller_run ::
  "('x \<Rightarrow> (string + 'a option) settled) \<Rightarrow> (nat \<times> 'x poll_event) list
     \<Rightarrow> 'a option ticker \<Rightarrow> 'a option ticker" where
  "poller_run task [] s = s"
| "poller_run task ((t, ev) # evs) s = poller_run task evs (poller_step task t ev s)"

text \<open>
  The task of \<^verbatim>\<open>pictureSettings$\<close>; \<open>TE_map Some\<close> is again the widening to
  \<^verbatim>\<open>T | null\<close>.
\<close>

definition pictureSettings_task ::
  "int option settled \<times> int option settled \<times> int option settled
     \<Rightarrow> (string + PictureSettings option) settled" where
  "pictureSettings_task fetched = TE_map Some (fetchPictureSettings fetched)"

fun is_cond :: "'x poll_event \<Rightarrow> bool" where
  "is_cond (CondEmit _) = True"
| "is_cond _ = False"

fun is_timer :: "'x poll_event \<Rightarrow> bool" where
  "is_timer TimerFire = True"
| "is_timer _ = False"


text \<open>The times \<open>d, d + POLL_INTERVAL, \<dots>\<close> of \<open>k\<close> successive periods.\<close>

definition periods :: "nat \<Rightarrow> nat \<Rightarrow> nat list" where
  "periods d k = map (\<lambda>j. d + POLL_INTERVAL * j) [0..<k]"

subsection \<open>The power poller and the server it polls\<close>

text \<open>
  Modelled from the spec: the helper \<^verbatim>\<open>getPowerState\<close> of \<^verbatim>\<open>./api\<close>, which the power
  poller calls at every tick, is not among the sources. Following the interface table of
  the specification (\<^verbatim>\<open>GET /api/power-state\<close> triggers one fresh power read, then returns
  the enriched snapshot), it requests that route and its promise resolves to the data of
  the reply; it rejects when the request gets no reply. How a request fares is given by
  its fate: it gets no reply, for the stated reason, or the route serves it, at the clock
  readings \<open>now\<close> and \<open>now'\<close> and with the given result of the device read. A reply
  without data, which the route never sends, counts as no reply.
\<close>

datatype 'e fate = Unanswered string | Answered int int "'e + bool option"

definition getPowerState :: "'e fate \<Rightarrow> server \<Rightarrow> PowerStateInfo settled \<times> server" where
  "getPowerState how srv =
     (case how of
        Unanswered reason \<Rightarrow> (Rejected reason, srv)
      | Answered now now' powerStatus \<Rightarrow>
          (case getPowerStateHandler now now' powerStatus srv of
             (reply, srv') \<Rightarrow>
               (case data (payload reply) of
                  None \<Rightarrow> (Rejected ''no data'', srv')
                | Some info \<Rightarrow> (Resolved info, srv'))))"

text \<open>
  The dashboard's power poller together with the server: \<open>backend\<close> is the state of the
  server, \<open>feed\<close> the state of \<^verbatim>\<open>power$\<close>, and \<open>requests\<close> the numbers of the fetches
  whose request is under way. A fetch that the poller starts is a call of
  \<open>getPowerState\<close>, so it puts a request under way; when the request ends, the server has
  served it or not, and the fetch settles accordingly.
\<close>

record dashboard =
  backend :: server
  feed :: "PowerStateInfo option ticker"
  requests :: "nat list"

datatype 'e dashboard_event = FirstSubscriber | TimerFires | RequestEnds nat "'e fate"


text \<open>The poller moves on, and every fetch it has started puts a request under way.\<close>

definition advance_feed :: "PowerStateInfo option ticker \<Rightarrow> dashboard \<Rightarrow> dashboard" where
  "advance_feed f d =
     d\<lparr>feed := f,
       requests := requests d @ [length (fetchTimes (feed d))..<length (fetchTimes f)]\<rparr>"

definition dashboard_step :: "nat \<Rightarrow> 'e dashboard_event \<Rightarrow> dashboard \<Rightarrow> dashboard" where
  "dashboard_step t ev d =
     (case ev of
        FirstSubscriber \<Rightarrow> advance_feed (power_step t Subscribed (feed d)) d
      | TimerFires \<Rightarrow> advance_feed (power_step t PowerTimer (feed d)) d
      | RequestEnds i how \<Rightarrow>
          if i \<in> set (requests d)
          then (case getPowerState how (backend d) of
                  (outcome, srv') \<Rightarrow>
                    \<lparr>backend = srv',
                     feed = power_step t (PowerSettled i outcome) (feed d),
                     requests = removeAll i (requests d)\<rparr>)
          else d)"







section \<open>The device link\<close>

text \<open>
  Modelled from the spec: the Device Link and the Command Client built on it
  (\<^verbatim>\<open>./lib/tk700-client\<close>) are not among the sources; only their callers are. The model
  follows section 4.1 of the specification: an exchange sends one request frame and ends
  with a reply frame, \<open>LinkTimeout\<close> or \<open>LinkClosed\<close>; one exchange is outstanding at a
  time; a caller that arrives meanwhile is queued in request order.

  \<open>issued\<close> records every call in the order of the calls, \<open>wire\<close> the frames written to
  the connection, \<open>delivered\<close> the outcomes handed back, each with the caller and the
  request it is handed back for.
\<close>

datatype link_failure = LinkTimeout | LinkClosed

record ('c, 'f) link =
  issued :: "('c \<times> 'f) list"
  waiting :: "('c \<times> 'f) list"
  outstanding :: "('c \<times> 'f) option"
  wire :: "'f list"
  delivered :: "(('c \<times> 'f) \<times> (link_failure + 'f)) list"

datatype ('c, 'f) link_event = Call 'c 'f | Complete "link_failure + 'f"

definition closed_link :: "('c, 'f) link" where
  "closed_link = \<lparr>issued = [], waiting = [], outstanding = None, wire = [], delivered = []\<rparr>"

text \<open>When no exchange is outstanding, the head of the queue is sent.\<close>

definition dispatch :: "('c, 'f) link \<Rightarrow> ('c, 'f) link" where
  "dispatch l =
     (case outstanding l of
        Some _ \<Rightarrow> l
      | None \<Rightarrow>
          (case waiting l of
             [] \<Rightarrow> l
           | (c, f) # rest \<Rightarrow>
               l\<lparr>waiting := rest, outstanding := Some (c, f), wire := wire l @ [f]\<rparr>))"

fun link_step :: "('c, 'f) link_event \<Rightarrow> ('c, 'f) link \<Rightarrow> ('c, 'f) link" where
  "link_step (Call c f) l =
     dispatch (l\<lparr>issued := issued l @ [(c, f)], waiting := waiting l @ [(c, f)]\<rparr>)"
| "link_step (Complete r) l =
     (case outstanding l of
        None \<Rightarrow> l
      | Some x \<Rightarrow> dispatch (l\<lparr>outstanding := None, delivered := delivered l @ [(x, r)]\<rparr>))"

fun link_run :: "('c, 'f) link_event list \<Rightarrow> ('c, 'f) link \<Rightarrow> ('c, 'f) link" where
  "link_run [] l = l"
| "link_run (ev # evs) l = link_run evs (link_step ev l)"

text \<open>The calls that have been sent or answered, in the order in which that happened.\<close>

definition in_service :: "('c, 'f) link \<Rightarrow> ('c \<times> 'f) list" where
  "in_service l =
     map fst (delivered l) @ (case outstanding l of None \<Rightarrow> [] | Some x \<Rightarrow> [x])"

definition link_ok :: "('c, 'f) link \<Rightarrow> bool" where
  "link_ok l =
     (issued l = in_service l @ waiting l
      \<and> wire l = map snd (in_service l)
      \<and> (outstanding l = None \<longrightarrow> waiting l = []))"

section \<open>Properties of the power state machine\<close>

lemma timer_matches_state_update:
  "timer_matches_state s \<Longrightarrow> timer_matches_state (updateFromProjector now s reading)"
  by (cases reading; cases "state s")
     (auto simp: timer_matches_state_def transitioning_def updateFromProjector_def
        inferPowerState_def shouldResetTransition_def Let_def)

lemma timer_matches_state_initiate:
  "timer_matches_state s \<Longrightarrow> timer_matches_state (initiateTransition now s targetOn)"
  by (auto simp: timer_matches_state_def transitioning_def initiateTransition_def Let_def)

lemma reachable_timer_matches_state: "reachable s \<Longrightarrow> timer_matches_state s"
proof (induction rule: reachable.induct)
  case init
  show ?case by (simp add: timer_matches_state_def transitioning_def initialState_def)
next
  case (observe s now reading)
  then show ?case by (simp add: timer_matches_state_update)
next
  case (request s now targetOn)
  then show ?case by (simp add: timer_matches_state_initiate)
qed

text \<open>
  Claim C1. In every snapshot that the holder can reach from \<open>initialState\<close> by any
  sequence of \<open>updateFromProjector\<close> and \<open>initiateTransition\<close> applications, at any clock
  readings, a transition start time is recorded if and only if the state is
  \<open>WARMING_UP\<close> or \<open>COOLING_DOWN\<close>.
\<close>

theorem C1_start_time_iff_transitioning:
  "reachable s \<Longrightarrow>
     (transitionStartTime s \<noteq> None) = (state s = WARMING_UP \<or> state s = COOLING_DOWN)"
  using reachable_timer_matches_state [of s]
  by (simp add: timer_matches_state_def transitioning_def)

theorem C1_start_time_iff_transitioning_witness:
  "reachable (initiateTransition 5000 (updateFromProjector 1000 initialState (Some False)) True)
   \<and> transitionStartTime
        (initiateTransition 5000 (updateFromProjector 1000 initialState (Some False)) True)
      = Some 5000
   \<and> state (initiateTransition 5000 (updateFromProjector 1000 initialState (Some False)) True)
      = WARMING_UP"
proof -
  let ?s = "initiateTransition 5000 (updateFromProjector 1000 initialState (Some False)) True"
  have r: "reachable ?s"
    by (intro reachable.request reachable.observe reachable.init)
  have t: "transitionStartTime ?s = Some 5000"
    by (simp add: initiateTransition_def updateFromProjector_def inferPowerState_def
        shouldResetTransition_def initialState_def)
  from C1_start_time_iff_transitioning [OF r] t
  have "state ?s = WARMING_UP \<or> state ?s = COOLING_DOWN" by simp
  moreover have "state ?s \<noteq> COOLING_DOWN"
    by (simp add: initiateTransition_def updateFromProjector_def inferPowerState_def
        shouldResetTransition_def initialState_def)
  ultimately show ?thesis using r t by simp
qed

text \<open>
  Where a start time other than \<open>0\<close> is recorded, or none, \<open>updateFromProjector\<close>
  is the function the specification describes.
\<close>

lemma updateFromProjector_agrees_spec:
  "transitionStartTime current \<noteq> Some 0 \<Longrightarrow>
     updateFromProjector now current reading = observeReading_spec now current reading"
  by (cases reading; cases "transitionStartTime current")
     (simp_all add: updateFromProjector_def observeReading_spec_def inferPowerState_def
        shouldResetTransition_def calculateTimeSinceTransition_def elapsed_spec_def
        WARMING_UP_TIME_SECONDS_def COOLING_DOWN_TIME_SECONDS_def Let_def)


lemma start_nonzero_update:
  "transitionStartTime s \<noteq> Some 0 \<Longrightarrow>
     transitionStartTime (updateFromProjector now s reading) \<noteq> Some 0"
  by (cases reading) (simp_all add: updateFromProjector_def Let_def)

lemma start_nonzero_initiate:
  "transitionStartTime s \<noteq> Some 0 \<Longrightarrow> now \<noteq> 0 \<Longrightarrow>
     transitionStartTime (initiateTransition now s targetOn) \<noteq> Some 0"
  by (simp add: initiateTransition_def Let_def)

lemma held_start_nonzero: "held s \<Longrightarrow> transitionStartTime s \<noteq> Some 0"
proof (induction rule: held.induct)
  case held_init
  show ?case by (simp add: initialState_def)
next
  case (held_observe s now reading)
  then show ?case by (simp add: start_nonzero_update)
next
  case (held_request s now targetOn)
  then show ?case by (simp add: start_nonzero_initiate)
qed


text \<open>
  Claim C2. For every snapshot the holder can hold, and more generally for every snapshot
  whose start time is not \<open>0\<close>, and every reading, \<open>updateFromProjector\<close> is the function
  of the specification: it returns the snapshot unchanged for no reading; otherwise it
  holds \<open>WARMING_UP\<close> within 30 seconds and \<open>COOLING_DOWN\<close> within 90 seconds of the start
  time, the elapsed time being infinite without one, and else resolves to \<open>ON\<close> or \<open>OFF\<close>
  by the reading; it clears the start time exactly when the resolved state differs from
  the current one and is \<open>ON\<close> or \<open>OFF\<close>, and sets \<open>powerOn\<close> to the reading.
\<close>

theorem C2_updateFromProjector_as_specified:
  "(held current \<longrightarrow>
      updateFromProjector now current reading = observeReading_spec now current reading)
   \<and> (transitionStartTime current \<noteq> Some 0 \<longrightarrow>
      updateFromProjector now current reading = observeReading_spec now current reading)"
  using held_start_nonzero [of current] updateFromProjector_agrees_spec [of current now reading]
  by blast

theorem C2_updateFromProjector_as_specified_witness:
  "held (initiateTransition 5000 (updateFromProjector 1000 initialState (Some False)) True)
   \<and> updateFromProjector 20000
        (initiateTransition 5000 (updateFromProjector 1000 initialState (Some False)) True)
        (Some True)
      = \<lparr>powerOn = Some True, state = WARMING_UP, transitionStartTime = Some 5000\<rparr>
   \<and> updateFromProjector 35000
        (initiateTransition 5000 (updateFromProjector 1000 initialState (Some False)) True)
        (Some True)
      = \<lparr>powerOn = Some True, state = ON, transitionStartTime = None\<rparr>
   \<and> updateFromProjector 35000
        (initiateTransition 5000 (updateFromProjector 1000 initialState (Some False)) True)
        None
      = \<lparr>powerOn = Some True, state = WARMING_UP, transitionStartTime = Some 5000\<rparr>"
proof -
  let ?s = "initiateTransition 5000 (updateFromProjector 1000 initialState (Some False)) True"
  have h: "held ?s"
    by (intro held.intros) simp
  have s: "?s = \<lparr>powerOn = Some True, state = WARMING_UP, transitionStartTime = Some 5000\<rparr>"
    by (simp add: initiateTransition_def updateFromProjector_def inferPowerState_def
        shouldResetTransition_def initialState_def)
  have nz: "transitionStartTime ?s \<noteq> Some 0" by (simp add: s)
  from C2_updateFromProjector_as_specified [of ?s 20000 "Some True"] h
  have a: "updateFromProjector 20000 ?s (Some True) = observeReading_spec 20000 ?s (Some True)"
    by blast
  from C2_updateFromProjector_as_specified [of ?s 35000 "Some True"] nz
  have b: "updateFromProjector 35000 ?s (Some True) = observeReading_spec 35000 ?s (Some True)"
    by blast
  from C2_updateFromProjector_as_specified [of ?s 35000 None] h
  have c: "updateFromProjector 35000 ?s None = observeReading_spec 35000 ?s None"
    by blast
  have a': "observeReading_spec 20000 ?s (Some True)
      = \<lparr>powerOn = Some True, state = WARMING_UP, transitionStartTime = Some 5000\<rparr>"
    by (simp add: s observeReading_spec_def elapsed_spec_def)
  have b': "observeReading_spec 35000 ?s (Some True)
      = \<lparr>powerOn = Some True, state = ON, transitionStartTime = None\<rparr>"
    by (simp add: s observeReading_spec_def elapsed_spec_def)
  have c': "observeReading_spec 35000 ?s None
      = \<lparr>powerOn = Some True, state = WARMING_UP, transitionStartTime = Some 5000\<rparr>"
    by (simp add: s observeReading_spec_def)
  from h a b c a' b' c' show ?thesis by simp
qed

text \<open>
  The start time \<open>0\<close>, which only a transition requested while the clock reads \<open>0\<close>
  would record, is taken for a missing one by the truthiness test.
\<close>

lemma start_time_zero_taken_for_missing:
  "calculateTimeSinceTransition now (Some 0) = PosInfinity
   \<and> elapsed_spec now (Some 0) = Fin (of_int now / 1000)"
  by (simp add: calculateTimeSinceTransition_def elapsed_spec_def)

text \<open>
  Claim C3. \<open>initiateTransition\<close> with target on is honoured only from \<open>OFF\<close> and then
  yields power on, \<open>WARMING_UP\<close> and the current time as start time; with target off it
  is honoured only from \<open>ON\<close> and then yields power off, \<open>COOLING_DOWN\<close> and the current
  time; in every other combination it returns the snapshot unchanged.
\<close>

theorem C3_initiateTransition_cases:
  "(targetOn \<and> state current = OFF \<longrightarrow>
      initiateTransition now current targetOn
        = \<lparr>powerOn = Some True, state = WARMING_UP, transitionStartTime = Some now\<rparr>)
   \<and> (\<not> targetOn \<and> state current = ON \<longrightarrow>
      initiateTransition now current targetOn
        = \<lparr>powerOn = Some False, state = COOLING_DOWN, transitionStartTime = Some now\<rparr>)
   \<and> (\<not> (targetOn \<and> state current = OFF) \<and> \<not> (\<not> targetOn \<and> state current = ON) \<longrightarrow>
      initiateTransition now current targetOn = current)"
  by (simp add: initiateTransition_def)

theorem C3_initiateTransition_cases_witness:
  "initiateTransition 7 \<lparr>powerOn = Some False, state = OFF, transitionStartTime = None\<rparr> True
     = \<lparr>powerOn = Some True, state = WARMING_UP, transitionStartTime = Some 7\<rparr>
   \<and> initiateTransition 7 \<lparr>powerOn = Some True, state = ON, transitionStartTime = None\<rparr> False
     = \<lparr>powerOn = Some False, state = COOLING_DOWN, transitionStartTime = Some 7\<rparr>
   \<and> initiateTransition 7
       \<lparr>powerOn = Some True, state = WARMING_UP, transitionStartTime = Some 3\<rparr> True
     = \<lparr>powerOn = Some True, state = WARMING_UP, transitionStartTime = Some 3\<rparr>"
  using C3_initiateTransition_cases
      [of True "\<lparr>powerOn = Some False, state = OFF, transitionStartTime = None\<rparr>" 7]
    C3_initiateTransition_cases
      [of False "\<lparr>powerOn = Some True, state = ON, transitionStartTime = None\<rparr>" 7]
    C3_initiateTransition_cases
      [of True "\<lparr>powerOn = Some True, state = WARMING_UP, transitionStartTime = Some 3\<rparr>" 7]
  by simp


lemma calculateRemainingSeconds_example:
  "calculateRemainingSeconds 30000
     \<lparr>powerOn = Some True, state = WARMING_UP, transitionStartTime = Some 1000\<rparr> = Fin 1"
  by (simp add: calculateRemainingSeconds_def calculateTimeSinceTransition_def
      WARMING_UP_TIME_SECONDS_def)


section \<open>Properties of the HTTP handlers\<close>

text \<open>
  Claim C9. \<^verbatim>\<open>POST /api/power\<close> with body \<^verbatim>\<open>{on: b}\<close> applies the transition to the held
  snapshot before it hands \<open>SetPower b\<close> to the device client, and whatever the device
  then answers: the snapshot after the request is \<open>initiateTransition\<close> of the snapshot
  before, so it is \<open>WARMING_UP\<close> from \<open>OFF\<close> with \<open>b\<close> true and \<open>COOLING_DOWN\<close> from
  \<open>ON\<close> with \<open>b\<close> false, also when the reply is the failure status 500.
\<close>

theorem C9_postPower_transition_first:
  "manager (snd (postPower now client on srv)) = initiateTransition now (manager srv) on
   \<and> journal (snd (postPower now client on srv))
       = journal srv @ [StateWritten (initiateTransition now (manager srv) on), Issued (SetPower on)]
   \<and> status (fst (postPower now client on srv))
       = (if truthy_error (error (client (SetPower on))) then 500 else 200)
   \<and> (on \<and> state (manager srv) = OFF \<longrightarrow>
        state (manager (snd (postPower now client on srv))) = WARMING_UP)
   \<and> (\<not> on \<and> state (manager srv) = ON \<longrightarrow>
        state (manager (snd (postPower now client on srv))) = COOLING_DOWN)"
  by (simp add: postPower_def initiateTransitionTo_def modifyState_def issue_def handleTask_def
      initiateTransition_def Let_def)

theorem C9_postPower_transition_first_witness:
  "status (fst (postPower 7 failing_client True
      \<lparr>manager = \<lparr>powerOn = Some False, state = OFF, transitionStartTime = None\<rparr>,
       journal = []\<rparr>)) = 500
   \<and> state (manager (snd (postPower 7 failing_client True
      \<lparr>manager = \<lparr>powerOn = Some False, state = OFF, transitionStartTime = None\<rparr>,
       journal = []\<rparr>))) = WARMING_UP
   \<and> status (fst (postPower 7 failing_client False
      \<lparr>manager = \<lparr>powerOn = Some True, state = ON, transitionStartTime = None\<rparr>,
       journal = []\<rparr>)) = 500
   \<and> state (manager (snd (postPower 7 failing_client False
      \<lparr>manager = \<lparr>powerOn = Some True, state = ON, transitionStartTime = None\<rparr>,
       journal = []\<rparr>))) = COOLING_DOWN"
  using C9_postPower_transition_first [of 7 failing_client True
      "\<lparr>manager = \<lparr>powerOn = Some False, state = OFF, transitionStartTime = None\<rparr>,
        journal = []\<rparr>"]
    C9_postPower_transition_first [of 7 failing_client False
      "\<lparr>manager = \<lparr>powerOn = Some True, state = ON, transitionStartTime = None\<rparr>,
        journal = []\<rparr>"]
  by (simp add: failing_client_def truthy_error_def initiateTransition_def)

text \<open>
  Claim C8, as stated, fails. A body whose \<^verbatim>\<open>direction\<close> member is the empty string
  contains the member and is answered with 400; and the body \<^verbatim>\<open>null\<close> contains neither
  member and is not answered with 400, since reading its member throws.
\<close>

theorem C8_falsy_direction_counterexample:
  "has_member (JObj [(''direction'', JStr '''')]) ''direction''
   \<and> reply_status (postBrightness ok_client (JObj [(''direction'', JStr '''')])) = Some 400
   \<and> \<not> has_member JNull ''direction'' \<and> \<not> has_member JNull ''value''
   \<and> reply_status (postBrightness ok_client JNull) \<noteq> Some 400"
  by (simp add: has_member_def postBrightness_def reply_status_def truthy_member_def)

lemma member_cases:
  "body \<noteq> JNull \<Longrightarrow> \<exists>m. member body k = Inr m"
  by (cases body) simp_all

text \<open>
  Claim C8, amended. For a parsed JSON body other than \<^verbatim>\<open>null\<close>,
  \<^verbatim>\<open>POST /api/brightness\<close> replies 400, with the error body \<^verbatim>\<open>Invalid request\<close>, if and
  only if the body's \<^verbatim>\<open>direction\<close> is absent or falsy and the body has no \<^verbatim>\<open>value\<close>
  member; with a truthy \<^verbatim>\<open>direction\<close> it dispatches \<open>AdjustBrightness\<close> with it,
  whether or not a \<^verbatim>\<open>value\<close> is present; with \<^verbatim>\<open>direction\<close> absent or falsy and a
  \<^verbatim>\<open>value\<close> present it dispatches \<open>SetBrightness\<close> with that value.
\<close>

theorem C8_postBrightness_dispatch:
  assumes "body \<noteq> JNull"
  shows "(reply_status (postBrightness client body) = Some 400)
           = (\<not> truthy_at body ''direction'' \<and> \<not> has_member body ''value'')
   \<and> (reply_status (postBrightness client body) = Some 400 \<longrightarrow>
        postBrightness client body
          = Inr (None, \<lparr>status = 400,
                        payload = \<lparr>error = Some ''Invalid request'', data = None\<rparr>\<rparr>))
   \<and> (truthy_at body ''direction'' \<longrightarrow>
        (\<exists>d. member body ''direction'' = Inr (Some d)
           \<and> postBrightness client body
               = Inr (Some (AdjustBrightness d), handleTask (client (AdjustBrightness d)))))
   \<and> (\<not> truthy_at body ''direction'' \<and> has_member body ''value'' \<longrightarrow>
        (\<exists>v. member body ''value'' = Inr (Some v)
           \<and> postBrightness client body
               = Inr (Some (SetBrightness v), handleTask (client (SetBrightness v)))))"
proof -
  obtain d where d: "member body ''direction'' = Inr d"
    using member_cases [OF assms] by blast
  obtain v where v: "member body ''value'' = Inr v"
    using member_cases [OF assms] by blast
  show ?thesis
    by (cases d; cases v)
       (auto simp: postBrightness_def reply_status_def truthy_at_def has_member_def
          truthy_member_def handleTask_def d v)
qed

theorem C8_postBrightness_dispatch_witness:
  "JObj [(''direction'', JNull), (''value'', JNum 40)] \<noteq> JNull
   \<and> postBrightness ok_client (JObj [(''direction'', JNull), (''value'', JNum 40)])
       = Inr (Some (SetBrightness (JNum 40)), \<lparr>status = 200, payload = \<lparr>error = None, data = Some ()\<rparr>\<rparr>)
   \<and> postBrightness ok_client (JObj [(''direction'', JStr ''up''), (''value'', JNum 40)])
       = Inr (Some (AdjustBrightness (JStr ''up'')), \<lparr>status = 200, payload = \<lparr>error = None, data = Some ()\<rparr>\<rparr>)
   \<and> reply_status (postBrightness ok_client (JObj [(''level'', JNum 40)])) = Some 400"
  using C8_postBrightness_dispatch [of "JObj [(''direction'', JNull), (''value'', JNum 40)]" ok_client]
    C8_postBrightness_dispatch [of "JObj [(''direction'', JStr ''up''), (''value'', JNum 40)]" ok_client]
    C8_postBrightness_dispatch [of "JObj [(''level'', JNum 40)]" ok_client]
  by (simp add: truthy_at_def has_member_def truthy_member_def handleTask_def ok_client_def truthy_error_def)

section \<open>Properties of the picture settings task\<close>

lemma fetchPictureSettings_all_resolved:
  "fetchPictureSettings (Resolved x, Resolved y, Resolved z)
     = Resolved (Inr \<lparr>brightness = x, contrast = y, sharpness = z\<rparr>)"
  by (simp add: fetchPictureSettings_def TE_orElse_def TE_map_def TE_tryCatch_def
      promise_then_def)

lemma Promise_all3_rejected:
  "is_rejected b \<or> is_rejected c \<or> is_rejected s \<Longrightarrow> \<exists>e. Promise_all3 b c s = Rejected e"
  by (cases b; cases c; cases s) simp_all

lemma fetchPictureSettings_one_rejected:
  assumes "is_rejected b \<or> is_rejected c \<or> is_rejected s"
  shows "fetchPictureSettings (b, c, s)
     = Resolved (Inr \<lparr>brightness = None, contrast = None, sharpness = None\<rparr>)"
proof -
  obtain e where "Promise_all3 b c s = Rejected e"
    using Promise_all3_rejected [OF assms] by blast
  then show ?thesis
    by (simp add: fetchPictureSettings_def TE_orElse_def TE_map_def TE_tryCatch_def
        promise_then_def TE_of_def)
qed

lemma settle_awaited_resolved:
  "pending st = Some i \<Longrightarrow> settle i (Resolved v) st = emit v (st\<lparr>pending := None\<rparr>)"
  by (simp add: settle_def)

lemma picture_tick:
  "fetchPictureSettings fetched = Resolved (Inr ps) \<Longrightarrow> \<not> errored st \<Longrightarrow> pending st = Some i \<Longrightarrow>
     poller_step pictureSettings_task t (Settled i fetched) st
       = emit (Some ps) (st\<lparr>pending := None\<rparr>)"
  by (simp add: poller_step_def pictureSettings_task_def TE_map_def promise_then_def
      getOrElse_null_def settle_def)

text \<open>
  Claim C10, as stated, fails for a tick whose fetch is replaced before it settles. Below,
  the triple 50, 60, 7 is cached; the fetch of the tick at 2000 ms is still running when the
  timer fires again at 4000 ms, and at 5000 ms its contrast read fails: the outcome is
  dropped and the cached triple stays 50, 60, 7.
\<close>

theorem C10_superseded_failure_counterexample:
  "cached (poller_run pictureSettings_task
       [(0, CondEmit True),
        (100, Settled 0 (Resolved (Some 50), Resolved (Some 60), Resolved (Some 7))),
        (2000, TimerFire), (4000, TimerFire),
        (5000, Settled 1 (Resolved (Some 50), Rejected ''timeout'', Resolved (Some 7)))] idle)
     = Some (Some \<lparr>brightness = Some 50, contrast = Some 60, sharpness = Some 7\<rparr>)"
  by code_simp

text \<open>
  Claim C10, amended. When the fetch that the picture settings poller awaits settles: if one
  of the three reads was rejected, the task yields and the poller caches the triple of
  three \<^verbatim>\<open>null\<close>s, whatever the other reads returned; if all three resolved, it caches the
  triple of their values. When a fetch settles that is not awaited any more, because a later
  firing of the timer or an emission of the signal has replaced it, nothing changes.
\<close>

theorem C10_picture_settings_all_or_nothing:
  assumes "\<not> errored st"
  shows "(is_rejected b \<or> is_rejected c \<or> is_rejected s \<longrightarrow>
            fetchPictureSettings (b, c, s)
              = Resolved (Inr \<lparr>brightness = None, contrast = None, sharpness = None\<rparr>))
       \<and> fetchPictureSettings (Resolved x, Resolved y, Resolved z)
              = Resolved (Inr \<lparr>brightness = x, contrast = y, sharpness = z\<rparr>)
       \<and> (pending st = Some i \<and> (is_rejected b \<or> is_rejected c \<or> is_rejected s) \<longrightarrow>
            cached (poller_step pictureSettings_task t (Settled i (b, c, s)) st)
              = Some (Some \<lparr>brightness = None, contrast = None, sharpness = None\<rparr>))
       \<and> (pending st = Some i \<longrightarrow>
            cached (poller_step pictureSettings_task t
                      (Settled i (Resolved x, Resolved y, Resolved z)) st)
              = Some (Some \<lparr>brightness = x, contrast = y, sharpness = z\<rparr>))
       \<and> (pending st \<noteq> Some j \<longrightarrow>
            poller_step pictureSettings_task t (Settled j fetched) st = st)"
proof -
  have stale: "pending st \<noteq> Some j \<longrightarrow>
      poller_step pictureSettings_task t (Settled j fetched) st = st"
    by (simp add: poller_step_def settle_def)
  have failed: "pending st = Some i \<and> (is_rejected b \<or> is_rejected c \<or> is_rejected s) \<longrightarrow>
      cached (poller_step pictureSettings_task t (Settled i (b, c, s)) st)
        = Some (Some \<lparr>brightness = None, contrast = None, sharpness = None\<rparr>)"
    using assms by (auto simp: picture_tick [OF fetchPictureSettings_one_rejected] emit_def)
  have resolved: "pending st = Some i \<longrightarrow>
      cached (poller_step pictureSettings_task t
                (Settled i (Resolved x, Resolved y, Resolved z)) st)
        = Some (Some \<lparr>brightness = x, contrast = y, sharpness = z\<rparr>)"
    using assms by (auto simp: picture_tick [OF fetchPictureSettings_all_resolved] emit_def)
  from stale failed resolved show ?thesis
    by (simp add: fetchPictureSettings_one_rejected fetchPictureSettings_all_resolved)
qed

theorem C10_picture_settings_all_or_nothing_witness:
  "cached (poller_step pictureSettings_task 2100
       (Settled 0 (Resolved (Some 50), Rejected ''timeout'', Resolved (Some 7)))
       \<lparr>timerDue = Some 4000, fetchTimes = [2000], pending = Some 0, cached = None,
        published = [], errored = False\<rparr>)
     = Some (Some \<lparr>brightness = None, contrast = None, sharpness = None\<rparr>)
   \<and> cached (poller_step pictureSettings_task 2100
       (Settled 0 (Resolved (Some 50), Resolved (Some 60), Resolved (Some 7)))
       \<lparr>timerDue = Some 4000, fetchTimes = [2000], pending = Some 0, cached = None,
        published = [], errored = False\<rparr>)
     = Some (Some \<lparr>brightness = Some 50, contrast = Some 60, sharpness = Some 7\<rparr>)
   \<and> poller_step pictureSettings_task 2100
       (Settled 1 (Resolved (Some 50), Rejected ''timeout'', Resolved (Some 7)))
       \<lparr>timerDue = Some 4000, fetchTimes = [2000], pending = Some 0, cached = None,
        published = [], errored = False\<rparr>
     = \<lparr>timerDue = Some 4000, fetchTimes = [2000], pending = Some 0, cached = None,
        published = [], errored = False\<rparr>
   \<and> fetchPictureSettings (Resolved (Some 50), Rejected ''timeout'', Resolved (Some 7))
     = Resolved (Inr \<lparr>brightness = None, contrast = None, sharpness = None\<rparr>)"
proof -
  let ?st = "\<lparr>timerDue = Some 4000, fetchTimes = [2000], pending = Some 0,
      cached = None :: PictureSettings option option, published = [], errored = False\<rparr>"
  have live: "\<not> errored ?st" by simp
  note c = C10_picture_settings_all_or_nothing [OF live, where i = 0 and j = 1 and t = 2100
      and b = "Resolved (Some 50)" and c = "Rejected ''timeout''" and s = "Resolved (Some 7)"
      and x = "Some 50" and y = "Some 60" and z = "Some 7"
      and fetched = "(Resolved (Some 50), Rejected ''timeout'', Resolved (Some 7))"]
  have p0: "pending ?st = Some 0" and p1: "pending ?st \<noteq> Some 1"
    and rej: "is_rejected (Resolved (Some (50::int))) \<or> is_rejected (Rejected ''timeout'')
        \<or> is_rejected (Resolved (Some (7::int)))"
    by simp_all
  from c p0 p1 rej show ?thesis by blast
qed

section \<open>Properties of the device link\<close>

lemma link_ok_closed: "link_ok closed_link"
  by (simp add: link_ok_def in_service_def closed_link_def)

lemma link_ok_dispatch:
  "issued l = in_service l @ waiting l \<Longrightarrow> wire l = map snd (in_service l) \<Longrightarrow> link_ok (dispatch l)"
  by (cases "outstanding l"; cases "waiting l")
     (auto simp: link_ok_def in_service_def dispatch_def)

lemma link_ok_step: 
  assumes "link_ok l" shows "link_ok (link_step ev l)"
proof (cases ev)
  case (Call c f)
  have "link_ok (dispatch (l\<lparr>issued := issued l @ [(c, f)], waiting := waiting l @ [(c, f)]\<rparr>))"
    using assms by (intro link_ok_dispatch) (simp_all add: link_ok_def in_service_def)
  then show ?thesis by (simp add: Call)
next
  case (Complete r)
  show ?thesis
  proof (cases "outstanding l")
    case None
    then show ?thesis using assms by (simp add: Complete)
  next
    case (Some x)
    have "link_ok (dispatch (l\<lparr>outstanding := None, delivered := delivered l @ [(x, r)]\<rparr>))"
      using assms Some by (intro link_ok_dispatch) (simp_all add: link_ok_def in_service_def)
    then show ?thesis by (simp add: Complete Some)
  qed
qed

lemma link_ok_run: "link_ok l \<Longrightarrow> link_ok (link_run evs l)"
  by (induction evs arbitrary: l) (simp_all add: link_ok_step)

lemma link_ok_wire_bound:
  "link_ok l \<Longrightarrow> length (wire l) \<le> Suc (length (delivered l))"
  by (auto simp: link_ok_def in_service_def split: option.splits)

lemma link_ok_wire_prefix: "link_ok l \<Longrightarrow> wire l = take (length (wire l)) (map snd (issued l))"
  by (auto simp: link_ok_def)

lemma link_ok_delivered_prefix:
  "link_ok l \<Longrightarrow> map fst (delivered l) = take (length (delivered l)) (issued l)"
  by (auto simp: link_ok_def in_service_def)

text \<open>
  Claim C7. On the device link of the specification, after any sequence of calls and
  completions: the frames written to the connection are an initial part of the frames of
  the calls, in the order of the calls; the outcomes handed back are, in order, those of
  an initial part of the calls, each handed back with its own caller and request; and at
  most one frame has been written that has no outcome yet. In particular, of two calls
  made back to back only the first frame is written until the first exchange completes,
  and each caller gets the outcome of its own exchange.
\<close>

theorem C7_link_fifo:
  "wire (link_run evs closed_link)
     = take (length (wire (link_run evs closed_link))) (map snd (issued (link_run evs closed_link)))
   \<and> map fst (delivered (link_run evs closed_link))
     = take (length (delivered (link_run evs closed_link))) (issued (link_run evs closed_link))
   \<and> length (wire (link_run evs closed_link)) \<le> Suc (length (delivered (link_run evs closed_link)))
   \<and> wire (link_run [Call a f, Call b g] closed_link) = [f]
   \<and> wire (link_run [Call a f, Call b g, Complete r] closed_link) = [f, g]
   \<and> delivered (link_run [Call a f, Call b g, Complete r, Complete r'] closed_link)
       = [((a, f), r), ((b, g), r')]"
proof -
  have ok: "link_ok (link_run evs closed_link)"
    by (rule link_ok_run [OF link_ok_closed])
  show ?thesis
    using link_ok_wire_prefix [OF ok] link_ok_delivered_prefix [OF ok] link_ok_wire_bound [OF ok]
    by (simp add: closed_link_def dispatch_def)
qed

section \<open>Properties of the pollers\<close>

text \<open>
  Every emission of the derived on/off signal is a change of its value.
\<close>

lemma isProjectorOn_signal_changes: "distinct_adj (isProjectorOn_signal emissions)"
  by (simp add: isProjectorOn_signal_def)

lemma periods_Suc: "periods d (Suc k) = d # periods (d + POLL_INTERVAL) k"
proof -
  have "map (\<lambda>j. d + POLL_INTERVAL * j) [0..<Suc k]
      = (d + POLL_INTERVAL * 0) # map (\<lambda>j. d + POLL_INTERVAL * j) (map Suc [0..<k])"
    by (simp only: upt_conv_Cons [of 0 "Suc k"] map_Suc_upt list.map)
  then show ?thesis by (simp add: periods_def comp_def add.assoc)
qed

lemma periods_0: "periods d 0 = []"
  by (simp add: periods_def)

lemma createPollingTask_value:
  "createPollingTask fetched msg
     = Resolved (Inr (case fetched of Rejected _ \<Rightarrow> None | Resolved v \<Rightarrow> Some v))"
  by (cases fetched)
     (simp_all add: createPollingTask_def TE_orElse_def TE_map_def TE_tryCatch_def
        promise_then_def TE_of_def)

lemma fetchPictureSettings_resolves: "\<exists>ps. fetchPictureSettings fetched = Resolved (Inr ps)"
proof -
  obtain b c s where f: "fetched = (b, c, s)" by (cases fetched) auto
  show ?thesis
    by (cases "Promise_all3 b c s")
       (simp_all add: f fetchPictureSettings_def TE_orElse_def TE_map_def TE_tryCatch_def
          promise_then_def TE_of_def split: prod.splits)
qed

lemma pictureSettings_task_resolves: "\<exists>v. pictureSettings_task fetched = Resolved (Inr v)"
  using fetchPictureSettings_resolves [of fetched]
  by (auto simp: pictureSettings_task_def TE_map_def promise_then_def)

lemma poller_step_idle_timer:
  "timerDue s = None \<Longrightarrow> poller_step task t TimerFire s = s"
  by (simp add: poller_step_def timer_fire_def)

lemma poller_step_idle_settled:
  "pending s = None \<Longrightarrow> poller_step task t (Settled i x) s = s"
  by (simp add: poller_step_def settle_def)

lemma poller_run_idle:
  "timerDue s = None \<Longrightarrow> pending s = None \<Longrightarrow> list_all (\<lambda>(t, ev). \<not> is_cond ev) evs \<Longrightarrow>
     poller_run task evs s = s"
proof (induction evs)
  case Nil
  show ?case by simp
next
  case (Cons a evs)
  obtain t ev where a: "a = (t, ev)" by (cases a)
  from Cons.prems a have "poller_step task t ev s = s"
    by (cases ev) (simp_all add: poller_step_idle_timer poller_step_idle_settled)
  with Cons a show ?case by simp
qed

lemma poller_step_off:
  "\<not> errored s \<Longrightarrow> poller_step task t (CondEmit False) s
     = emit None (s\<lparr>timerDue := None, pending := None\<rparr>)"
  by (simp add: poller_step_def)

lemma poller_step_on:
  "\<not> errored s \<Longrightarrow> poller_step task t (CondEmit True) s = subscribe_interval t s"
  by (simp add: poller_step_def)

lemma poller_step_settled_resolved:
  "\<not> errored s \<Longrightarrow> pending s = Some i \<Longrightarrow> task x = Resolved (Inr v) \<Longrightarrow>
     poller_step task t (Settled i x) s = emit v (s\<lparr>pending := None\<rparr>)"
  by (simp add: poller_step_def settle_def promise_then_def getOrElse_null_def)

lemma poller_step_keeps_timer:
  assumes res: "\<And>x. \<exists>v. task x = Resolved (Inr v)"
  shows "\<not> errored s \<Longrightarrow> \<not> is_cond ev \<Longrightarrow> \<not> is_timer ev \<Longrightarrow>
     timerDue (poller_step task t ev s) = timerDue s
     \<and> fetchTimes (poller_step task t ev s) = fetchTimes s
     \<and> \<not> errored (poller_step task t ev s)"
proof (cases ev)
  case (Settled i x)
  assume ne: "\<not> errored s"
  obtain v where "task x = Resolved (Inr v)" using res by blast
  then show ?thesis using ne
    by (simp add: Settled poller_step_def settle_def promise_then_def emit_def)
qed simp_all

lemma poller_step_due_timer:
  "\<not> errored s \<Longrightarrow> timerDue s = Some d \<Longrightarrow>
     timerDue (poller_step task d TimerFire s) = Some (d + POLL_INTERVAL)
     \<and> fetchTimes (poller_step task d TimerFire s) = fetchTimes s @ [d]
     \<and> \<not> errored (poller_step task d TimerFire s)"
  by (simp add: poller_step_def timer_fire_def start_fetch_def)

lemma poller_run_periods:
  assumes res: "\<And>x. \<exists>v. task x = Resolved (Inr v)"
  shows "\<not> errored s \<Longrightarrow> timerDue s = Some d \<Longrightarrow>
     list_all (\<lambda>(t, ev). \<not> is_cond ev) evs \<Longrightarrow>
     map fst (filter (\<lambda>(t, ev). is_timer ev) evs) = periods d k \<Longrightarrow>
     fetchTimes (poller_run task evs s) = fetchTimes s @ periods d k
     \<and> timerDue (poller_run task evs s) = Some (d + POLL_INTERVAL * k)
     \<and> \<not> errored (poller_run task evs s)"
proof (induction evs arbitrary: s d k)
  case Nil
  then have "periods d k = []" by simp
  then have "k = 0" by (simp add: periods_def)
  with Nil show ?case by (simp add: periods_0)
next
  case (Cons a evs)
  obtain t ev where a: "a = (t, ev)" by (cases a)
  show ?case
  proof (cases "is_timer ev")
    case True
    then have ev: "ev = TimerFire" by (cases ev) simp_all
    from Cons.prems(4) a True have hd: "t # map fst (filter (\<lambda>(t, ev). is_timer ev) evs) = periods d k"
      by simp
    then obtain k' where k: "k = Suc k'" by (cases k) (simp_all add: periods_0)
    from hd k have t: "t = d" and rest: "map fst (filter (\<lambda>(t, ev). is_timer ev) evs) = periods (d + POLL_INTERVAL) k'"
      by (simp_all add: periods_Suc)
    let ?s = "poller_step task d TimerFire s"
    from poller_step_due_timer [OF Cons.prems(1,2), where task = task]
    have s1: "timerDue ?s = Some (d + POLL_INTERVAL)" "fetchTimes ?s = fetchTimes s @ [d]" "\<not> errored ?s"
      by simp_all
    from Cons.prems(3) a have na: "list_all (\<lambda>(t, ev). \<not> is_cond ev) evs" by simp
    from Cons.IH [OF s1(3) s1(1) na rest] s1(2)
    show ?thesis by (simp add: a ev t k periods_Suc)
  next
    case False
    from Cons.prems(3) a have nc: "\<not> is_cond ev" and na: "list_all (\<lambda>(t, ev). \<not> is_cond ev) evs"
      by simp_all
    let ?s = "poller_step task t ev s"
    from poller_step_keeps_timer [OF res Cons.prems(1) nc False, where t = t]
    have s1: "timerDue ?s = timerDue s" "fetchTimes ?s = fetchTimes s" "\<not> errored ?s"
      by simp_all
    from Cons.prems(4) a False have rest: "map fst (filter (\<lambda>(t, ev). is_timer ev) evs) = periods d k"
      by simp
    from s1(1) Cons.prems(2) have due: "timerDue ?s = Some d" by simp
    from Cons.IH [OF s1(3) due na rest] s1(2)
    show ?thesis by (simp add: a)
  qed
qed


lemma poller_off_run:
  assumes "\<not> errored s" and "list_all (\<lambda>(t, ev). \<not> is_cond ev) evs"
  shows "poller_run task evs (poller_step task t (CondEmit False) s)
           = emit None (s\<lparr>timerDue := None, pending := None\<rparr>)"
  using assms by (simp add: poller_step_off poller_run_idle emit_def)

lemma poller_on_run:
  assumes res: "\<And>x. \<exists>v. task x = Resolved (Inr v)"
    and "\<not> errored s" and "list_all (\<lambda>(t, ev). \<not> is_cond ev) evs"
    and "map fst (filter (\<lambda>(t, ev). is_timer ev) evs) = periods (t + POLL_INTERVAL) k"
  shows "fetchTimes (poller_run task evs (poller_step task t (CondEmit True) s))
           = fetchTimes s @ t # periods (t + POLL_INTERVAL) k
         \<and> \<not> errored (poller_run task evs (poller_step task t (CondEmit True) s))"
proof -
  let ?s = "subscribe_interval t s"
  have a: "\<not> errored ?s" "timerDue ?s = Some (t + POLL_INTERVAL)" "fetchTimes ?s = fetchTimes s @ [t]"
    using assms(2) by (simp_all add: subscribe_interval_def start_fetch_def)
  from poller_run_periods [OF res a(1) a(2) assms(3) assms(4)] a(3) assms(2)
  show ?thesis by (simp add: poller_step_on)
qed

lemma poller_failed_tick:
  assumes "\<not> errored s" and "pending s = Some i" and "task x = Resolved (Inr v)"
  shows "cached (poller_step task t (Settled i x) s) = Some v
         \<and> timerDue (poller_step task t (Settled i x) s) = timerDue s
         \<and> \<not> errored (poller_step task t (Settled i x) s)"
  using assms by (simp add: poller_step_settled_resolved emit_def)

lemma pictureSettings_task_one_rejected:
  assumes "is_rejected b \<or> is_rejected c \<or> is_rejected sh"
  shows "pictureSettings_task (b, c, sh)
     = Resolved (Inr (Some \<lparr>brightness = None, contrast = None, sharpness = None\<rparr>))"
proof -
  obtain e where "Promise_all3 b c sh = Rejected e"
    using assms by (cases b; cases c; cases sh) simp_all
  then show ?thesis
    by (simp add: pictureSettings_task_def fetchPictureSettings_def TE_orElse_def TE_map_def
        TE_tryCatch_def promise_then_def TE_of_def)
qed

text \<open>
  Claim C5, as stated, fails where it says that a failure on any tick yields \<^verbatim>\<open>null\<close> for
  that tick. The temperature poller below has the reading 42 cached; the fetch of the tick
  at 2000 ms is still running when the timer fires again at 4000 ms, and fails at 5000 ms:
  its failure is dropped, nothing is emitted for that tick and the cached value stays 42.
\<close>

theorem C5_superseded_failure_counterexample:
  "cached (poller_run (\<lambda>fetched. createPollingTask fetched ''Failed to fetch temperature'')
       [(0, CondEmit True), (100, Settled 0 (Resolved (42::int))), (2000, TimerFire),
        (4000, TimerFire), (5000, Settled 1 (Rejected ''timeout''))] idle)
     = Some (Some 42)
   \<and> published (poller_run (\<lambda>fetched. createPollingTask fetched ''Failed to fetch temperature'')
       [(0, CondEmit True), (100, Settled 0 (Resolved (42::int))), (2000, TimerFire),
        (4000, TimerFire), (5000, Settled 1 (Rejected ''timeout''))] idle)
     = [Some 42]"
  by (simp add: poller_step_def idle_def subscribe_interval_def start_fetch_def timer_fire_def
      settle_def emit_def createPollingTask_value promise_then_def getOrElse_null_def
      POLL_INTERVAL_def)

text \<open>
  Claim C5, amended. For the pollers built by \<^verbatim>\<open>createConditionalPoller$\<close> from a task of
  \<^verbatim>\<open>createPollingTask\<close> (temperature, fan speed, volume, picture mode, with any error
  label) and for the picture settings poller, in any state in which the stream is alive:
  \<^item> when the derived signal emits \<^verbatim>\<open>false\<close>, the cached value becomes \<^verbatim>\<open>null\<close> and stays
    so, and no fetch is started, whatever timers fire and fetches settle, until the signal
    emits again;
  \<^item> when the signal emits \<^verbatim>\<open>true\<close> at time \<open>t\<close>, a fetch is started at \<open>t\<close> and one at
    each firing of the timer, \<open>POLL_INTERVAL\<close> apart, however the fetches in between
    settle, and the stream stays alive;
  \<^item> when the awaited fetch fails, the cached value becomes \<^verbatim>\<open>null\<close> (for the picture
    settings, the triple whose three readings are \<^verbatim>\<open>null\<close>), the timer stays armed as it
    was and the stream stays alive;
  \<^item> when a fetch settles that is not awaited any more, because a later firing of the timer
    or an emission of the signal has replaced it, nothing changes.
\<close>

theorem C5_conditional_pollers:
  fixes s :: "'a option ticker" and p :: "PictureSettings option ticker"
  assumes "\<not> errored s" and "\<not> errored p"
    and "list_all (\<lambda>(t, ev). \<not> is_cond ev) offs" and "list_all (\<lambda>(t, ev). \<not> is_cond ev) poffs"
    and "list_all (\<lambda>(t, ev). \<not> is_cond ev) ons" and "list_all (\<lambda>(t, ev). \<not> is_cond ev) pons"
    and "map fst (filter (\<lambda>(t, ev). is_timer ev) ons) = periods (t + POLL_INTERVAL) k"
    and "map fst (filter (\<lambda>(t, ev). is_timer ev) pons) = periods (t + POLL_INTERVAL) k"
  shows
    "(let T = (\<lambda>fetched. createPollingTask fetched msg) in
        cached (poller_run T offs (poller_step T t (CondEmit False) s)) = Some None
      \<and> fetchTimes (poller_run T offs (poller_step T t (CondEmit False) s)) = fetchTimes s
      \<and> fetchTimes (poller_run T ons (poller_step T t (CondEmit True) s))
          = fetchTimes s @ t # periods (t + POLL_INTERVAL) k
      \<and> \<not> errored (poller_run T ons (poller_step T t (CondEmit True) s))
      \<and> (pending s = Some i \<longrightarrow>
           cached (poller_step T u (Settled i (Rejected e)) s) = Some None
         \<and> timerDue (poller_step T u (Settled i (Rejected e)) s) = timerDue s
         \<and> \<not> errored (poller_step T u (Settled i (Rejected e)) s))
      \<and> (pending s \<noteq> Some j \<longrightarrow> poller_step T u (Settled j x) s = s))
   \<and> (let T = pictureSettings_task in
        cached (poller_run T poffs (poller_step T t (CondEmit False) p)) = Some None
      \<and> fetchTimes (poller_run T poffs (poller_step T t (CondEmit False) p)) = fetchTimes p
      \<and> fetchTimes (poller_run T pons (poller_step T t (CondEmit True) p))
          = fetchTimes p @ t # periods (t + POLL_INTERVAL) k
      \<and> \<not> errored (poller_run T pons (poller_step T t (CondEmit True) p))
      \<and> (pending p = Some i \<and> (is_rejected b \<or> is_rejected c \<or> is_rejected sh) \<longrightarrow>
           cached (poller_step T u (Settled i (b, c, sh)) p)
             = Some (Some \<lparr>brightness = None, contrast = None, sharpness = None\<rparr>)
         \<and> timerDue (poller_step T u (Settled i (b, c, sh)) p) = timerDue p
         \<and> \<not> errored (poller_step T u (Settled i (b, c, sh)) p))
      \<and> (pending p \<noteq> Some j \<longrightarrow> poller_step T u (Settled j y) p = p))"
proof -
  let ?T = "\<lambda>fetched :: 'a settled. createPollingTask fetched msg"
  have stale: "pending s \<noteq> Some j \<longrightarrow> poller_step ?T u (Settled j x) s = s"
    by (simp add: poller_step_def settle_def)
  have pstale: "pending p \<noteq> Some j \<longrightarrow> poller_step pictureSettings_task u (Settled j y) p = p"
    by (simp add: poller_step_def settle_def)
  have res: "\<And>x. \<exists>v. ?T x = Resolved (Inr v)"
    by (simp add: createPollingTask_value)
  have pres: "\<And>x. \<exists>v. pictureSettings_task x = Resolved (Inr v)"
    by (rule pictureSettings_task_resolves)
  have off: "poller_run ?T offs (poller_step ?T t (CondEmit False) s)
      = emit None (s\<lparr>timerDue := None, pending := None\<rparr>)"
    by (rule poller_off_run) fact+
  have poff: "poller_run pictureSettings_task poffs (poller_step pictureSettings_task t (CondEmit False) p)
      = emit None (p\<lparr>timerDue := None, pending := None\<rparr>)"
    by (rule poller_off_run) fact+
  have on: "fetchTimes (poller_run ?T ons (poller_step ?T t (CondEmit True) s))
           = fetchTimes s @ t # periods (t + POLL_INTERVAL) k
         \<and> \<not> errored (poller_run ?T ons (poller_step ?T t (CondEmit True) s))"
    by (rule poller_on_run [OF res]) fact+
  have pon: "fetchTimes (poller_run pictureSettings_task pons (poller_step pictureSettings_task t (CondEmit True) p))
           = fetchTimes p @ t # periods (t + POLL_INTERVAL) k
         \<and> \<not> errored (poller_run pictureSettings_task pons (poller_step pictureSettings_task t (CondEmit True) p))"
    by (rule poller_on_run [OF pres]) fact+
  have fail: "pending s = Some i \<longrightarrow>
           cached (poller_step ?T u (Settled i (Rejected e)) s) = Some None
         \<and> timerDue (poller_step ?T u (Settled i (Rejected e)) s) = timerDue s
         \<and> \<not> errored (poller_step ?T u (Settled i (Rejected e)) s)"
    using poller_failed_tick [OF assms(1), where task = ?T and x = "Rejected e" and v = None and i = i and t = u]
    by (simp add: createPollingTask_value)
  have pfail: "pending p = Some i \<and> (is_rejected b \<or> is_rejected c \<or> is_rejected sh) \<longrightarrow>
           cached (poller_step pictureSettings_task u (Settled i (b, c, sh)) p)
             = Some (Some \<lparr>brightness = None, contrast = None, sharpness = None\<rparr>)
         \<and> timerDue (poller_step pictureSettings_task u (Settled i (b, c, sh)) p) = timerDue p
         \<and> \<not> errored (poller_step pictureSettings_task u (Settled i (b, c, sh)) p)"
  proof (intro impI, elim conjE)
    assume pe: "pending p = Some i" and rej: "is_rejected b \<or> is_rejected c \<or> is_rejected sh"
    show "cached (poller_step pictureSettings_task u (Settled i (b, c, sh)) p)
             = Some (Some \<lparr>brightness = None, contrast = None, sharpness = None\<rparr>)
         \<and> timerDue (poller_step pictureSettings_task u (Settled i (b, c, sh)) p) = timerDue p
         \<and> \<not> errored (poller_step pictureSettings_task u (Settled i (b, c, sh)) p)"
      using poller_failed_tick [where task = pictureSettings_task and x = "(b, c, sh)" and t = u,
          OF assms(2) pe pictureSettings_task_one_rejected [OF rej]]
      by simp
  qed
  show ?thesis
    unfolding Let_def
    using off poff on pon fail pfail stale pstale by (simp add: emit_def)
qed


theorem C5_conditional_pollers_witness:
  "fetchTimes (poller_run (\<lambda>fetched. createPollingTask fetched ''Failed to fetch temperature'')
       [(3100, Settled 1 (Rejected ''timeout'')), (5000, TimerFire),
        (5100, Settled 2 (Resolved (41::int))), (7000, TimerFire)]
       (poller_step (\<lambda>fetched. createPollingTask fetched ''Failed to fetch temperature'') 3000
          (CondEmit True)
          \<lparr>timerDue = Some 2005, fetchTimes = [5], pending = Some 0, cached = None,
           published = [], errored = False\<rparr>))
     = [5, 3000, 5000, 7000]
   \<and> cached (poller_run (\<lambda>fetched. createPollingTask fetched ''Failed to fetch temperature'')
       [(3500, TimerFire), (3600, Settled 0 (Resolved (40::int)))]
       (poller_step (\<lambda>fetched. createPollingTask fetched ''Failed to fetch temperature'') 3000
          (CondEmit False)
          \<lparr>timerDue = Some 2005, fetchTimes = [5], pending = Some 0, cached = None,
           published = [], errored = False\<rparr>))
     = Some None
   \<and> cached (poller_step (\<lambda>fetched. createPollingTask fetched ''Failed to fetch temperature'')
       2100 (Settled 0 (Rejected ''timeout''))
       \<lparr>timerDue = Some 2005, fetchTimes = [5], pending = Some 0, cached = None,
        published = [], errored = False\<rparr>)
     = Some (None :: int option)
   \<and> cached (poller_step pictureSettings_task 2100
       (Settled 0 (Rejected ''timeout'', Resolved (Some 50), Resolved (Some 7)))
       \<lparr>timerDue = Some 2005, fetchTimes = [5], pending = Some 0, cached = None,
        published = [], errored = False\<rparr>)
     = Some (Some \<lparr>brightness = None, contrast = None, sharpness = None\<rparr>)
   \<and> fetchTimes (poller_run pictureSettings_task [(5000, TimerFire), (7000, TimerFire)]
       (poller_step pictureSettings_task 3000 (CondEmit True)
          \<lparr>timerDue = Some 2005, fetchTimes = [5], pending = Some 0, cached = None,
           published = [], errored = False\<rparr>))
     = [5, 3000, 5000, 7000]
   \<and> poller_step (\<lambda>fetched. createPollingTask fetched ''Failed to fetch temperature'')
       2100 (Settled 1 (Rejected ''timeout''))
       \<lparr>timerDue = Some 2005, fetchTimes = [5], pending = Some 0,
        cached = None :: int option option, published = [], errored = False\<rparr>
     = \<lparr>timerDue = Some 2005, fetchTimes = [5], pending = Some 0, cached = None,
        published = [], errored = False\<rparr>"
proof -
  let ?s = "\<lparr>timerDue = Some 2005, fetchTimes = [5], pending = Some 0,
             cached = None :: int option option, published = [], errored = False\<rparr>"
  let ?p = "\<lparr>timerDue = Some 2005, fetchTimes = [5], pending = Some 0,
             cached = None :: PictureSettings option option, published = [], errored = False\<rparr>"
  let ?offs = "[(3500, TimerFire), (3600, Settled 0 (Resolved (40::int)))]"
  let ?poffs = "[(3500::nat, TimerFire
      :: (int option settled \<times> int option settled \<times> int option settled) poll_event)]"
  let ?ons = "[(3100, Settled 1 (Rejected ''timeout'')), (5000, TimerFire),
        (5100, Settled 2 (Resolved (41::int))), (7000, TimerFire)]"
  let ?pons = "[(5000::nat, TimerFire
      :: (int option settled \<times> int option settled \<times> int option settled) poll_event),
      (7000, TimerFire)]"
  have per: "periods (3000 + POLL_INTERVAL) 2 = [5000, 7000]"
    by code_simp
  have h1: "\<not> errored ?s" and h2: "\<not> errored ?p" by simp_all
  have h3: "list_all (\<lambda>(t, ev). \<not> is_cond ev) ?offs"
    and h4: "list_all (\<lambda>(t, ev). \<not> is_cond ev) ?poffs"
    and h5: "list_all (\<lambda>(t, ev). \<not> is_cond ev) ?ons"
    and h6: "list_all (\<lambda>(t, ev). \<not> is_cond ev) ?pons"
    by simp_all
  have h7: "map fst (filter (\<lambda>(t, ev). is_timer ev) ?ons) = periods (3000 + POLL_INTERVAL) 2"
    and h8: "map fst (filter (\<lambda>(t, ev). is_timer ev) ?pons) = periods (3000 + POLL_INTERVAL) 2"
    by (simp_all add: per)
  from C5_conditional_pollers [OF h1 h2 h3 h4 h5 h6 h7 h8,
      where msg = "''Failed to fetch temperature''" and i = 0 and u = 2100
        and e = "''timeout''" and b = "Rejected ''timeout''"
        and c = "Resolved (Some 50)" and sh = "Resolved (Some 7)"
        and j = 1 and x = "Rejected ''timeout''"
        and y = "(Rejected ''timeout'', Resolved (Some 50), Resolved (Some 7))"]
  show ?thesis
    by (simp add: Let_def per)
qed





lemma power_step_due_timer:
  "\<not> errored s \<Longrightarrow> timerDue s = Some d \<Longrightarrow>
     timerDue (power_step d PowerTimer s) = Some (d + POLL_INTERVAL)
     \<and> fetchTimes (power_step d PowerTimer s) = fetchTimes s @ [d]
     \<and> \<not> errored (power_step d PowerTimer s)"
  by (simp add: power_step_def timer_fire_def start_fetch_def)








lemma dashboard_step_due_timer:
  assumes "\<not> errored (feed d)" and "timerDue (feed d) = Some u"
  shows "timerDue (feed (dashboard_step u TimerFires d)) = Some (u + POLL_INTERVAL)
     \<and> fetchTimes (feed (dashboard_step u TimerFires d)) = fetchTimes (feed d) @ [u]
     \<and> \<not> errored (feed (dashboard_step u TimerFires d))
     \<and> pending (feed (dashboard_step u TimerFires d)) = Some (length (fetchTimes (feed d)))
     \<and> requests (dashboard_step u TimerFires d)
         = requests d @ [length (fetchTimes (feed d))]"
  using assms
  by (simp add: dashboard_step_def advance_feed_def power_step_def timer_fire_def
      start_fetch_def)















end
